theory Spec2Isabelle
  imports Complex_Main
begin

section \<open>Numbers, points and configuration records\<close>

text \<open>
  The page computes with JavaScript numbers. They are modelled as mathematical reals:
  \<open>Math.sin\<close>, \<open>Math.cos\<close> and \<open>Math.PI\<close> are \<open>sin\<close>, \<open>cos\<close> and \<open>pi\<close>, and the
  rounding of IEEE-754 doubles, the infinities and NaN are not part of the model.
\<close>

definition WORLD_WIDTH :: real where
  "WORLD_WIDTH = 4000"

definition WORLD_HEIGHT :: real where
  "WORLD_HEIGHT = 4300"

record Path =
  path_length :: real
  path_width :: real
  path_top :: real
  path_left :: real
  path_angle :: real

record TreeBlock =
  block_length :: real
  block_width :: real
  block_density :: real
  block_top :: real
  block_left :: real

record point =
  pt_x :: real
  pt_y :: real

text \<open>\<open>Math.floor\<close> and \<open>Math.round\<close>; the latter rounds halves towards plus infinity.\<close>

definition Math_floor :: "real \<Rightarrow> real" where
  "Math_floor v = of_int \<lfloor>v\<rfloor>"

definition Math_round :: "real \<Rightarrow> real" where
  "Math_round v = of_int \<lfloor>v + 1 / 2\<rfloor>"

section \<open>Deterministic noise\<close>

definition seededRandom :: "real \<Rightarrow> real" where
  "seededRandom seed = (let x = sin seed * 10000 in x - Math_floor x)"

section \<open>Containment in a rotated rectangle\<close>

definition isPointInPath :: "real \<Rightarrow> real \<Rightarrow> Path \<Rightarrow> bool" where
  "isPointInPath x y path =
     (let angleRad = (path_angle path * pi) / 180;
          cs = cos angleRad;
          sn = sin angleRad;
          dx = x - path_left path;
          dy = y - path_top path;
          rotatedX = dx * cs + dy * sn;
          rotatedY = - dx * sn + dy * cs
      in rotatedX \<ge> 0 \<and> rotatedX \<le> path_length path \<and> \<bar>rotatedY\<bar> \<le> path_width path / 2)"

text \<open>
  The containment test as the specification words it: the point is translated by the
  anchor, then the rotation matrix of the negated angle is applied, and the local
  coordinates are compared with the closed intervals.
\<close>

definition rotate :: "real \<Rightarrow> real \<times> real \<Rightarrow> real \<times> real" where
  "rotate phi p = (fst p * cos phi - snd p * sin phi, fst p * sin phi + snd p * cos phi)"

definition localCoordinates :: "real \<times> real \<Rightarrow> Path \<Rightarrow> real \<times> real" where
  "localCoordinates p path =
     rotate (- (path_angle path * pi / 180)) (fst p - path_left path, snd p - path_top path)"

definition containsPoint :: "real \<times> real \<Rightarrow> Path \<Rightarrow> bool" where
  "containsPoint p path =
     (let u = fst (localCoordinates p path); v = snd (localCoordinates p path)
      in 0 \<le> u \<and> u \<le> path_length path \<and> \<bar>v\<bar> \<le> path_width path / 2)"

definition corridor :: Path where
  "corridor = \<lparr>path_length = 100, path_width = 50, path_top = 0, path_left = 0, path_angle = 0\<rparr>"

section \<open>Block tree generator\<close>

text \<open>
  Both generators round every coordinate with the expression
  \<open>Math.round(v * 100) / 100\<close>.
\<close>

definition round2 :: "real \<Rightarrow> real" where
  "round2 v = Math_round (v * 100) / 100"

text \<open>The candidate tree of one grid cell: the jittered and rounded position.\<close>

definition treeCandidate :: "real \<Rightarrow> real \<Rightarrow> real \<Rightarrow> real \<Rightarrow> nat \<Rightarrow> point" where
  "treeCandidate spacing blockSeed x y treeIndex =
     (let seedX = blockSeed + real treeIndex * 11;
          seedY = blockSeed + real treeIndex * 13 + 1000;
          offsetX = (seededRandom seedX - 0.5) * spacing * 0.4;
          offsetY = (seededRandom seedY - 0.5) * spacing * 0.4;
          treeX = round2 (x + offsetX);
          treeY = round2 (y + offsetY)
      in \<lparr>pt_x = treeX, pt_y = treeY\<rparr>)"

text \<open>The scan of the paths, which stops at the first path that contains the point.\<close>

fun isInPath :: "real \<Rightarrow> real \<Rightarrow> Path list \<Rightarrow> bool" where
  "isInPath treeX treeY [] = False"
| "isInPath treeX treeY (path # paths) =
     (if isPointInPath treeX treeY path then True else isInPath treeX treeY paths)"

definition withinBlock :: "TreeBlock \<Rightarrow> real \<Rightarrow> real \<Rightarrow> bool" where
  "withinBlock block treeX treeY =
     (treeX \<ge> block_left block \<and> treeX \<le> block_left block + block_width block
      \<and> treeY \<ge> block_top block \<and> treeY \<le> block_top block + block_length block)"

definition pushTree :: "TreeBlock \<Rightarrow> Path list \<Rightarrow> point \<Rightarrow> point list \<Rightarrow> point list" where
  "pushTree block paths t trees =
     (if withinBlock block (pt_x t) (pt_y t)
      then (if \<not> isInPath (pt_x t) (pt_y t) paths then trees @ [t] else trees)
      else trees)"

text \<open>
  The two nested loops. Their state is the pair of \<open>treeIndex\<close> and \<open>trees\<close>. The loops
  step by \<open>spacing\<close>, which need not be positive, so they may run forever: the result
  \<open>None\<close> stands for a loop that does not return.
\<close>

partial_function (option) yLoop ::
  "TreeBlock \<Rightarrow> Path list \<Rightarrow> real \<Rightarrow> real \<Rightarrow> real \<Rightarrow> real \<Rightarrow> nat \<times> point list
   \<Rightarrow> (nat \<times> point list) option" where
  "yLoop block paths spacing blockSeed x y st =
     (if y < block_top block + block_length block
      then yLoop block paths spacing blockSeed x (y + spacing)
             (fst st + 1, pushTree block paths (treeCandidate spacing blockSeed x y (fst st)) (snd st))
      else Some st)"

partial_function (option) xLoop ::
  "TreeBlock \<Rightarrow> Path list \<Rightarrow> real \<Rightarrow> real \<Rightarrow> real \<Rightarrow> nat \<times> point list
   \<Rightarrow> (nat \<times> point list) option" where
  "xLoop block paths spacing blockSeed x st =
     (if x < block_left block + block_width block
      then Option.bind (yLoop block paths spacing blockSeed x (block_top block) st)
             (xLoop block paths spacing blockSeed (x + spacing))
      else Some st)"

text \<open>
  With density 0 the source computes the spacing \<open>100 / 0 = Infinity\<close>: a candidate
  then has infinite or NaN coordinates and fails the bounds test, and each loop leaves
  after at most one step, so no tree is produced. The reals have no infinity, so this
  case is written out.
\<close>

definition generateTreeBlock :: "TreeBlock \<Rightarrow> Path list \<Rightarrow> point list option" where
  "generateTreeBlock block paths =
     (if block_density block = 0 then Some []
      else (let spacing = 100 / block_density block;
                blockSeed = block_left block * 1000 + block_top block * 100
                            + block_width block + block_length block
            in map_option snd (xLoop block paths spacing blockSeed (block_left block) (0, []))))"

section \<open>Border generator\<close>

definition TREE_SPACING :: real where
  "TREE_SPACING = 250"

definition BORDER_DEPTH :: real where
  "BORDER_DEPTH = 800"

definition RANDOM_OFFSET :: real where
  "RANDOM_OFFSET = 200"

definition BOTTOM_RAISE :: real where
  "BOTTOM_RAISE = 200"

definition borderSeed :: real where
  "borderSeed = 12345"

definition rand :: "real \<Rightarrow> real \<Rightarrow> real" where
  "rand rng seed = (seededRandom seed - 0.5) * rng"

text \<open>The tree pushed by one step of each of the four loops of a layer.\<close>

definition topTree :: "real \<Rightarrow> real \<Rightarrow> nat \<Rightarrow> point" where
  "topTree layer x treeCounter =
     (let seed1 = borderSeed + real treeCounter * 17;
          seed2 = borderSeed + real treeCounter * 19 + 5000
      in \<lparr>pt_x = round2 (x + rand RANDOM_OFFSET seed1),
          pt_y = round2 (- layer + rand (RANDOM_OFFSET / 2) seed2)\<rparr>)"

definition bottomTree :: "real \<Rightarrow> real \<Rightarrow> nat \<Rightarrow> point" where
  "bottomTree layer x treeCounter =
     (let seed1 = borderSeed + real treeCounter * 17;
          seed2 = borderSeed + real treeCounter * 19 + 5000
      in \<lparr>pt_x = round2 (x + rand RANDOM_OFFSET seed1),
          pt_y = round2 (WORLD_HEIGHT + layer - BOTTOM_RAISE + rand (RANDOM_OFFSET / 2) seed2)\<rparr>)"

definition leftTree :: "real \<Rightarrow> real \<Rightarrow> nat \<Rightarrow> point" where
  "leftTree layer y treeCounter =
     (let seed1 = borderSeed + real treeCounter * 17;
          seed2 = borderSeed + real treeCounter * 19 + 5000
      in \<lparr>pt_x = round2 (- layer + rand (RANDOM_OFFSET / 2) seed1),
          pt_y = round2 (y + rand RANDOM_OFFSET seed2)\<rparr>)"

definition rightTree :: "real \<Rightarrow> real \<Rightarrow> nat \<Rightarrow> point" where
  "rightTree layer y treeCounter =
     (let seed1 = borderSeed + real treeCounter * 17;
          seed2 = borderSeed + real treeCounter * 19 + 5000
      in \<lparr>pt_x = round2 (WORLD_WIDTH + layer + rand (RANDOM_OFFSET / 2) seed1),
          pt_y = round2 (y + rand RANDOM_OFFSET seed2)\<rparr>)"

text \<open>
  A loop \<open>for (v = start; v <= limit; v += TREE_SPACING)\<close> that pushes \<open>tree v treeCounter\<close>
  and increments the counter. The four loops of a layer are instances of it: they differ
  in the limit and in the tree they push.
\<close>

function borderLoop ::
  "(real \<Rightarrow> nat \<Rightarrow> point) \<Rightarrow> real \<Rightarrow> real \<Rightarrow> nat \<times> point list \<Rightarrow> nat \<times> point list" where
  "borderLoop tree limit v st =
     (if v \<le> limit
      then borderLoop tree limit (v + TREE_SPACING) (fst st + 1, snd st @ [tree v (fst st)])
      else st)"
  by pat_completeness auto
termination
  by (relation "measure (\<lambda>(tree, limit, v, st). nat \<lfloor>(limit - v) / 250 + 1\<rfloor>)")
     (auto simp: TREE_SPACING_def diff_divide_distrib add_divide_distrib, linarith)

declare borderLoop.simps [simp del]

definition borderLayer :: "real \<Rightarrow> nat \<times> point list \<Rightarrow> nat \<times> point list" where
  "borderLayer layer st =
     (let st1 = borderLoop (topTree layer) (WORLD_WIDTH + TREE_SPACING) (- TREE_SPACING) st;
          st2 = borderLoop (bottomTree layer) (WORLD_WIDTH + TREE_SPACING) (- TREE_SPACING) st1;
          st3 = borderLoop (leftTree layer) (WORLD_HEIGHT + TREE_SPACING) (- TREE_SPACING) st2;
          st4 = borderLoop (rightTree layer) (WORLD_HEIGHT + TREE_SPACING) (- TREE_SPACING) st3
      in st4)"

function layerLoop :: "real \<Rightarrow> nat \<times> point list \<Rightarrow> nat \<times> point list" where
  "layerLoop layer st =
     (if layer < BORDER_DEPTH
      then layerLoop (layer + TREE_SPACING / 2) (borderLayer layer st)
      else st)"
  by pat_completeness auto
termination
  by (relation "measure (\<lambda>(layer, st). nat \<lfloor>(800 - layer) / 125 + 1\<rfloor>)")
     (auto simp: TREE_SPACING_def BORDER_DEPTH_def diff_divide_distrib add_divide_distrib, linarith)

declare layerLoop.simps [simp del]

definition generateBorderTrees :: "point list" where
  "generateBorderTrees = snd (layerLoop 0 (0, []))"

text \<open>
  The border in closed form: in each layer four rows (top, bottom, left, right), each a
  regular grid with step \<open>TREE_SPACING\<close> starting at \<open>- TREE_SPACING\<close>, every point
  jittered by two noise values seeded from the running counter and rounded. The nominal
  position is the position before jitter and rounding; the bottom row is raised by
  \<open>BOTTOM_RAISE\<close>.
\<close>

definition gridPosition :: "nat \<Rightarrow> real" where
  "gridPosition k = - TREE_SPACING + TREE_SPACING * real k"

definition jitteredPoint :: "real \<Rightarrow> real \<Rightarrow> real \<Rightarrow> real \<Rightarrow> nat \<Rightarrow> point" where
  "jitteredPoint nominalX nominalY rangeX rangeY counter =
     \<lparr>pt_x = round2 (nominalX + rand rangeX (borderSeed + real counter * 17)),
      pt_y = round2 (nominalY + rand rangeY (borderSeed + real counter * 19 + 5000))\<rparr>"

definition borderRing :: "real \<Rightarrow> nat \<Rightarrow> point list" where
  "borderRing layer counter =
     map (\<lambda>k. jitteredPoint (gridPosition k) (- layer) 200 100 (counter + k)) [0..<19]
     @ map (\<lambda>k. jitteredPoint (gridPosition k) (WORLD_HEIGHT + layer - BOTTOM_RAISE) 200 100
                  (counter + 19 + k)) [0..<19]
     @ map (\<lambda>k. jitteredPoint (- layer) (gridPosition k) 100 200 (counter + 38 + k)) [0..<20]
     @ map (\<lambda>k. jitteredPoint (WORLD_WIDTH + layer) (gridPosition k) 100 200
                  (counter + 58 + k)) [0..<20]"

definition smallBlock :: TreeBlock where
  "smallBlock = \<lparr>block_length = 10, block_width = 10, block_density = 20,
                  block_top = 0, block_left = 0\<rparr>"

definition coveringPath :: Path where
  "coveringPath = \<lparr>path_length = 10, path_width = 20, path_top = 5, path_left = 0,
                    path_angle = 0\<rparr>"

section \<open>Avatar movement\<close>

definition SPEED :: real where
  "SPEED = 8"

text \<open>
  One tick of the movement loop: \<open>keysPressed\<close> is the set of pressed keys, \<open>prev\<close> the
  position before the tick.
\<close>

definition updatePosition :: "string set \<Rightarrow> point \<Rightarrow> point" where
  "updatePosition keysPressed prev =
     (let newY0 = pt_y prev;
          newX0 = pt_x prev;
          newY1 = (if ''ArrowUp'' \<in> keysPressed then max 650 (pt_y prev - SPEED) else newY0);
          newY2 = (if ''ArrowDown'' \<in> keysPressed
                   then min (WORLD_HEIGHT - 200) (pt_y prev + SPEED) else newY1);
          newX1 = (if ''ArrowLeft'' \<in> keysPressed then max 550 (pt_x prev - SPEED) else newX0);
          newX2 = (if ''ArrowRight'' \<in> keysPressed
                   then min (WORLD_WIDTH - 200) (pt_x prev + SPEED) else newX1)
      in \<lparr>pt_x = newX2, pt_y = newY2\<rparr>)"

section \<open>Strings\<close>

text \<open>
  Strings are lists of characters with codes below 256. \<open>String.prototype.trim\<close> removes
  white space and line terminators from both ends; among these characters they are
  tab, line feed, vertical tab, form feed, carriage return, space and no-break space.
\<close>

definition isWhiteSpace :: "char \<Rightarrow> bool" where
  "isWhiteSpace c =
     (c \<in> set [CHR 0x09, CHR 0x0A, CHR 0x0B, CHR 0x0C, CHR 0x0D, CHR 0x20, CHR 0xA0])"

definition trim :: "string \<Rightarrow> string" where
  "trim s = rev (dropWhile isWhiteSpace (rev (dropWhile isWhiteSpace s)))"

text \<open>\<open>s.split('\n')[0]\<close>: the text before the first line feed.\<close>

definition firstLine :: "string \<Rightarrow> string" where
  "firstLine s = takeWhile (\<lambda>c. c \<noteq> CHR 0x0A) s"

text \<open>Decimal digits of a natural number, and \<open>padStart(2, '0')\<close>.\<close>

fun toString :: "nat \<Rightarrow> string" where
  "toString n =
     (if n < 10 then [char_of (48 + n)] else toString (n div 10) @ [char_of (48 + n mod 10)])"

declare toString.simps [simp del]

definition padStart2 :: "string \<Rightarrow> string" where
  "padStart2 s = replicate (2 - length s) (CHR ''0'') @ s"

definition formatTime :: "nat \<Rightarrow> string" where
  "formatTime seconds =
     (let mins = seconds div 60; secs = seconds mod 60
      in padStart2 (toString mins) @ '':'' @ padStart2 (toString secs))"

section \<open>Signs, responses and the completion check\<close>

record TextBox =
  sign_text :: string
  fontSize :: real
  sign_top :: real
  sign_left :: real
  additionalInfo :: "string option"
  grading :: "(string \<Rightarrow> string) option"
  hasInput :: "bool option"
  title :: "string option"

record SignResponse =
  index :: nat
  response :: string
  timestamp :: nat

definition agentTaskIndices :: "nat list" where
  "agentTaskIndices = [6, 7]"

definition beansRenameIndex :: nat where
  "beansRenameIndex = 1"

text \<open>\<open>signResponses.find(r => r.index === i)\<close>: the first record with that index.\<close>

definition findResponse :: "SignResponse list \<Rightarrow> nat \<Rightarrow> SignResponse option" where
  "findResponse signResponses i = find (\<lambda>r. index r = i) signResponses"

text \<open>\<open>response && response.response.trim().length > 0\<close>\<close>

definition hasResponse :: "SignResponse list \<Rightarrow> nat \<Rightarrow> bool" where
  "hasResponse signResponses i =
     (case findResponse signResponses i of
        None \<Rightarrow> False
      | Some r \<Rightarrow> length (trim (response r)) > 0)"

text \<open>\<open>textBox.title || textBox.text.split('\n')[0]\<close>: an empty title is falsy.\<close>

definition taskName :: "TextBox \<Rightarrow> string" where
  "taskName textBox =
     (case title textBox of
        Some t \<Rightarrow> if t \<noteq> [] then t else firstLine (sign_text textBox)
      | None \<Rightarrow> firstLine (sign_text textBox))"

definition textBoxesWithGrading :: "TextBox list \<Rightarrow> (TextBox \<times> nat) list" where
  "textBoxesWithGrading textBoxes =
     filter (\<lambda>tbi. grading (fst tbi) \<noteq> None) (zip textBoxes [0..<length textBoxes])"

definition agentTaskCompleted :: "SignResponse list \<Rightarrow> bool" where
  "agentTaskCompleted signResponses = list_ex (hasResponse signResponses) agentTaskIndices"

text \<open>
  The body of the first \<open>forEach\<close>. The state is the pair of \<open>missingResponses\<close> and
  \<open>gradingResults\<close>.
\<close>

definition checkSign ::
  "SignResponse list \<Rightarrow> TextBox \<times> nat \<Rightarrow> nat list \<times> (nat \<times> string) list
   \<Rightarrow> nat list \<times> (nat \<times> string) list" where
  "checkSign signResponses tbi st =
     (let textBox = fst tbi; i = snd tbi
      in if i = beansRenameIndex then st
         else if i \<in> set agentTaskIndices
         then (if \<not> agentTaskCompleted signResponses then (fst st @ [i], snd st) else st)
         else (case findResponse signResponses i of
                 None \<Rightarrow> (fst st @ [i], snd st)
               | Some r \<Rightarrow>
                   if trim (response r) = [] then (fst st @ [i], snd st)
                   else (case grading textBox of
                           Some g \<Rightarrow> (fst st, snd st @ [(i, g (response r))])
                         | None \<Rightarrow> st)))"

definition checkSigns ::
  "TextBox list \<Rightarrow> SignResponse list \<Rightarrow> nat list \<times> (nat \<times> string) list" where
  "checkSigns textBoxes signResponses =
     fold (checkSign signResponses) (textBoxesWithGrading textBoxes) ([], [])"

text \<open>\<open>textBoxes[i]?.title || fallback\<close> for the two agent signs.\<close>

definition agentTaskName :: "TextBox list \<Rightarrow> nat \<Rightarrow> string \<Rightarrow> string" where
  "agentTaskName textBoxes i fallback =
     (if i < length textBoxes
      then (case title (textBoxes ! i) of
              Some t \<Rightarrow> if t \<noteq> [] then t else fallback
            | None \<Rightarrow> fallback)
      else fallback)"

definition missingTaskNames :: "TextBox list \<Rightarrow> nat list \<Rightarrow> string list" where
  "missingTaskNames textBoxes missingResponses =
     (let agentTasksMissing = filter (\<lambda>idx. idx \<in> set agentTaskIndices) missingResponses;
          agentNames =
            (if length agentTasksMissing > 0
             then [agentTaskName textBoxes (agentTaskIndices ! 0) ''Find an Agent'' @ '' or ''
                   @ agentTaskName textBoxes (agentTaskIndices ! 1) ''Already have an agent'']
             else [])
      in agentNames
         @ concat (map (\<lambda>i. if i \<notin> set agentTaskIndices
                             then (if i < length textBoxes then [taskName (textBoxes ! i)] else [])
                             else [])
                   missingResponses))"

text \<open>
  The body of the second \<open>forEach\<close>, which collects \<open>allResponses\<close>. The source treats
  the agent signs in a branch of their own, with the same effect as the general branch.
\<close>

definition collectResponse ::
  "SignResponse list \<Rightarrow> TextBox \<times> nat \<Rightarrow> (string \<times> string) list \<Rightarrow> (string \<times> string) list" where
  "collectResponse signResponses tbi allResponses =
     (let textBox = fst tbi; i = snd tbi
      in if i = beansRenameIndex then allResponses
         else if i \<in> set agentTaskIndices
         then (case findResponse signResponses i of
                 None \<Rightarrow> allResponses
               | Some r \<Rightarrow>
                   if length (trim (response r)) > 0
                   then allResponses @ [(taskName textBox, response r)]
                   else allResponses)
         else (case findResponse signResponses i of
                 None \<Rightarrow> allResponses
               | Some r \<Rightarrow>
                   if length (trim (response r)) > 0
                   then allResponses @ [(taskName textBox, response r)]
                   else allResponses))"

text \<open>
  What the completion button shows. The message is a fixed text around the missing task
  names, or around the formatted time and the list of responses; the model keeps these
  parts and leaves the fixed text out.
\<close>

datatype completionFeedback =
    StillMissing "string list"
  | Congratulations string "(string \<times> string) list"

definition completionClick ::
  "TextBox list \<Rightarrow> SignResponse list \<Rightarrow> nat \<Rightarrow> completionFeedback" where
  "completionClick textBoxes signResponses elapsedTime =
     (let missingResponses = fst (checkSigns textBoxes signResponses)
      in if length missingResponses > 0
         then StillMissing (missingTaskNames textBoxes missingResponses)
         else Congratulations (formatTime elapsedTime)
                (fold (collectResponse signResponses) (textBoxesWithGrading textBoxes) []))"









text \<open>Signs for the examples: one with a title and a grading function, one with neither.\<close>

definition gradedSign :: "string \<Rightarrow> (string \<Rightarrow> string) \<Rightarrow> TextBox" where
  "gradedSign name g =
     \<lparr>sign_text = ''Task'', fontSize = 24, sign_top = 0, sign_left = 0,
      additionalInfo = Some ''What is your answer?'', grading = Some g,
      hasInput = Some True, title = Some name\<rparr>"


definition answer :: "nat \<Rightarrow> string \<Rightarrow> SignResponse" where
  "answer i r = \<lparr>index = i, response = r, timestamp = 0\<rparr>"


section \<open>Submitting a response\<close>

record clickedSign =
  clicked_index :: nat
  clicked_info :: string
  clicked_hasInput :: "bool option"

record pageState =
  textBoxes :: "TextBox list"
  clickedTextBox :: "clickedSign option"
  signResponses :: "SignResponse list"
  currentResponse :: string
  dogName :: string

definition initialState :: "TextBox list \<Rightarrow> pageState" where
  "initialState initialTextBoxes =
     \<lparr>textBoxes = initialTextBoxes, clickedTextBox = None, signResponses = [],
      currentResponse = [], dogName = ''Beans''\<rparr>"

text \<open>
  The events that touch the response dialog. A sign reacts to a click only when it has a
  non-empty \<open>additionalInfo\<close>; the text area and the Submit and Cancel buttons exist only
  while a sign is open and its \<open>hasInput\<close> is not \<open>false\<close>. \<open>SubmitClicked\<close> carries the
  value of \<open>Date.now()\<close>.
\<close>

datatype event =
    SignClicked nat
  | ResponseTyped string
  | SubmitClicked nat
  | CancelClicked
  | DialogClosed

definition inputShown :: "pageState \<Rightarrow> bool" where
  "inputShown s =
     (case clickedTextBox s of None \<Rightarrow> False | Some c \<Rightarrow> clicked_hasInput c \<noteq> Some False)"

definition submitClick :: "nat \<Rightarrow> pageState \<Rightarrow> pageState" where
  "submitClick now s =
     (case clickedTextBox s of
        None \<Rightarrow> s
      | Some c \<Rightarrow>
          (let trimmedResponse = trim (currentResponse s);
               s1 = (if clicked_index c = 1 \<and> length trimmedResponse > 0
                     then s\<lparr>dogName := trimmedResponse\<rparr> else s)
           in s1\<lparr>signResponses := signResponses s1
                     @ [\<lparr>index = clicked_index c, response = trimmedResponse, timestamp = now\<rparr>],
                  currentResponse := [],
                  clickedTextBox := None\<rparr>))"

fun handleEvent :: "event \<Rightarrow> pageState \<Rightarrow> pageState" where
  "handleEvent (SignClicked i) s =
     (if i < length (textBoxes s)
      then (case additionalInfo (textBoxes s ! i) of
              None \<Rightarrow> s
            | Some info \<Rightarrow>
                if info = [] then s
                else s\<lparr>clickedTextBox :=
                         Some \<lparr>clicked_index = i, clicked_info = info,
                               clicked_hasInput = hasInput (textBoxes s ! i)\<rparr>\<rparr>)
      else s)"
| "handleEvent (ResponseTyped v) s = (if inputShown s then s\<lparr>currentResponse := v\<rparr> else s)"
| "handleEvent (SubmitClicked now) s = (if inputShown s then submitClick now s else s)"
| "handleEvent CancelClicked s =
     (if inputShown s then s\<lparr>currentResponse := [], clickedTextBox := None\<rparr> else s)"
| "handleEvent DialogClosed s = s\<lparr>clickedTextBox := None\<rparr>"

definition getSignResponses :: "pageState \<Rightarrow> SignResponse list" where
  "getSignResponses s = signResponses s"

text \<open>The invariant of the response store: every stored response is its own trimmed form.\<close>

definition allTrimmed :: "pageState \<Rightarrow> bool" where
  "allTrimmed s = (\<forall>r\<in>set (signResponses s). trim (response r) = response r)"

section \<open>Properties of the noise source\<close>

text \<open>
  Claim C7. For every seed, \<open>seededRandom\<close> is the fractional part of
  \<open>sin seed * 10000\<close> and lies in the half-open interval from 0 to 1. The function
  reads nothing but its argument and keeps no state, so two calls with the same seed
  give the same value.
\<close>

theorem seededRandom_frac_range:
  "seededRandom s = frac (sin s * 10000) \<and> 0 \<le> seededRandom s \<and> seededRandom s < 1"
proof -
  have eq: "seededRandom s = frac (sin s * 10000)"
    by (simp add: seededRandom_def Math_floor_def frac_def Let_def)
  have "0 \<le> frac (sin s * 10000)" and "frac (sin s * 10000) < 1"
    by (rule frac_ge_0, rule frac_lt_1)
  with eq show ?thesis by simp
qed

section \<open>Properties of the containment test\<close>

text \<open>
  Claim C1. \<open>isPointInPath\<close> holds exactly when the local coordinates \<open>(u, v)\<close> of the
  point, obtained by translating by the anchor and rotating by the negated angle, satisfy
  \<open>0 \<le> u \<le> length\<close> and \<open>\<bar>v\<bar> \<le> width / 2\<close>, boundaries included. For the corridor of
  length 100 and width 50 at the origin with angle 0, the points (50, 0) and (100, 25)
  are inside and the points (50, 26) and (-1, 0) are outside.
\<close>

theorem isPointInPath_iff_local:
  "isPointInPath x y path = containsPoint (x, y) path
   \<and> isPointInPath x y path =
       (0 \<le> fst (localCoordinates (x, y) path)
        \<and> fst (localCoordinates (x, y) path) \<le> path_length path
        \<and> \<bar>snd (localCoordinates (x, y) path)\<bar> \<le> path_width path / 2)
   \<and> isPointInPath 50 0 corridor \<and> isPointInPath 100 25 corridor
   \<and> \<not> isPointInPath 50 26 corridor \<and> \<not> isPointInPath (- 1) 0 corridor"
  by (simp add: isPointInPath_def containsPoint_def localCoordinates_def rotate_def
      corridor_def Let_def algebra_simps)

section \<open>Properties of the block tree generator\<close>

lemma round2_idem: "round2 (round2 v) = round2 v"
  by (simp add: round2_def Math_round_def)

lemma round2_add_int: "round2 (v + of_int n) = round2 v + of_int n"
proof -
  have "(v + of_int n) * 100 + 1 / 2 = (v * 100 + 1 / 2) + of_int (n * 100)"
    by (simp add: algebra_simps)
  then have "\<lfloor>(v + of_int n) * 100 + 1 / 2\<rfloor> = \<lfloor>v * 100 + 1 / 2\<rfloor> + n * 100"
    by (metis floor_add_int)
  then show ?thesis
    by (simp add: round2_def Math_round_def add_divide_distrib)
qed

lemma isInPath_iff: "isInPath x y paths \<longleftrightarrow> (\<exists>path\<in>set paths. isPointInPath x y path)"
  by (induction paths) auto

lemma yLoop_invariant:
  assumes sp: "0 < spacing"
    and step: "\<And>x y i trees. \<forall>u\<in>set trees. P u \<Longrightarrow>
                 \<forall>u\<in>set (pushTree block paths (treeCandidate spacing seed x y i) trees). P u"
  shows "\<forall>u\<in>set (snd st). P u \<Longrightarrow>
         \<exists>st'. yLoop block paths spacing seed x y st = Some st' \<and> (\<forall>u\<in>set (snd st'). P u)"
proof (induction "nat \<lceil>(block_top block + block_length block - y) / spacing\<rceil>"
        arbitrary: y st rule: less_induct)
  case less
  show ?case
  proof (cases "y < block_top block + block_length block")
    case False
    then show ?thesis using less.prems by (subst yLoop.simps) simp
  next
    case True
    let ?b = "block_top block + block_length block"
    let ?st = "(fst st + 1, pushTree block paths (treeCandidate spacing seed x y (fst st)) (snd st))"
    have pos: "0 < (?b - y) / spacing" using True sp by simp
    have "(?b - (y + spacing)) / spacing = (?b - y) / spacing - 1"
      using sp by (simp add: field_simps)
    then have "\<lceil>(?b - (y + spacing)) / spacing\<rceil> = \<lceil>(?b - y) / spacing\<rceil> - 1"
      by simp
    moreover have "0 < \<lceil>(?b - y) / spacing\<rceil>" using pos by linarith
    ultimately have dec: "nat \<lceil>(?b - (y + spacing)) / spacing\<rceil> < nat \<lceil>(?b - y) / spacing\<rceil>"
      by linarith
    have "\<forall>u\<in>set (snd ?st). P u" using step [OF less.prems] by simp
    from less.hyps [OF dec this]
    obtain st' where "yLoop block paths spacing seed x (y + spacing) ?st = Some st'"
      and "\<forall>u\<in>set (snd st'). P u" by blast
    then show ?thesis using True by (subst yLoop.simps) simp
  qed
qed

lemma xLoop_invariant:
  assumes sp: "0 < spacing"
    and step: "\<And>x y i trees. \<forall>u\<in>set trees. P u \<Longrightarrow>
                 \<forall>u\<in>set (pushTree block paths (treeCandidate spacing seed x y i) trees). P u"
  shows "\<forall>u\<in>set (snd st). P u \<Longrightarrow>
         \<exists>st'. xLoop block paths spacing seed x st = Some st' \<and> (\<forall>u\<in>set (snd st'). P u)"
proof (induction "nat \<lceil>(block_left block + block_width block - x) / spacing\<rceil>"
        arbitrary: x st rule: less_induct)
  case less
  show ?case
  proof (cases "x < block_left block + block_width block")
    case False
    then show ?thesis using less.prems by (subst xLoop.simps) simp
  next
    case True
    let ?b = "block_left block + block_width block"
    have pos: "0 < (?b - x) / spacing" using True sp by simp
    have "(?b - (x + spacing)) / spacing = (?b - x) / spacing - 1"
      using sp by (simp add: field_simps)
    then have "\<lceil>(?b - (x + spacing)) / spacing\<rceil> = \<lceil>(?b - x) / spacing\<rceil> - 1"
      by simp
    moreover have "0 < \<lceil>(?b - x) / spacing\<rceil>" using pos by linarith
    ultimately have dec: "nat \<lceil>(?b - (x + spacing)) / spacing\<rceil> < nat \<lceil>(?b - x) / spacing\<rceil>"
      by linarith
    from yLoop_invariant [of spacing P block paths seed, OF sp step less.prems]
    obtain st1 where y1: "yLoop block paths spacing seed x (block_top block) st = Some st1"
      and p1: "\<forall>u\<in>set (snd st1). P u" by blast
    from less.hyps [OF dec p1]
    obtain st' where "xLoop block paths spacing seed (x + spacing) st1 = Some st'"
      and "\<forall>u\<in>set (snd st'). P u" by blast
    then show ?thesis using True y1 by (subst xLoop.simps) simp
  qed
qed


lemmas yLoop_induct =
  yLoop.raw_induct [of _ "((((((block, paths), spacing), seed), x), y), st)", simplified]
  for block paths spacing seed x y st

lemmas xLoop_induct =
  xLoop.raw_induct [of _ "(((((block, paths), spacing), seed), x), st)", simplified]
  for block paths spacing seed x st

lemma yLoop_partial:
  assumes step: "\<And>x y i trees. \<forall>u\<in>set trees. P u \<Longrightarrow>
                 \<forall>u\<in>set (pushTree block paths (treeCandidate spacing seed x y i) trees). P u"
    and r: "yLoop block paths spacing seed x y st = Some st'"
    and p: "\<forall>u\<in>set (snd st). P u"
  shows "\<forall>u\<in>set (snd st'). P u"
proof -
  have "block = block \<and> paths = paths \<and> spacing = spacing \<and> seed = seed
        \<longrightarrow> (\<forall>u\<in>set (snd st). P u) \<longrightarrow> (\<forall>u\<in>set (snd st'). P u)"
  proof (rule yLoop_induct [where P = "\<lambda>b ps sp sd x y st st'.
        b = block \<and> ps = paths \<and> sp = spacing \<and> sd = seed
        \<longrightarrow> (\<forall>u\<in>set (snd st). P u) \<longrightarrow> (\<forall>u\<in>set (snd st'). P u)", OF _ r], goal_cases)
    case (1 f b ps sp sd x y st st')
    show ?case
    proof (intro impI)
      assume e: "b = block \<and> ps = paths \<and> sp = spacing \<and> sd = seed"
        and q: "\<forall>u\<in>set (snd st). P u"
      show "\<forall>u\<in>set (snd st'). P u"
      proof (cases "y < block_top b + block_length b")
        case True
        with 1(2) have "f b ps sp sd x (y + sp)
            (fst st + 1, pushTree b ps (treeCandidate sp sd x y (fst st)) (snd st)) = Some st'"
          by simp
        from 1(1) [OF this] e step [OF q] show ?thesis by simp
      next
        case False
        with 1(2) q show ?thesis by simp
      qed
    qed
  qed
  with p show ?thesis by simp
qed

lemma xLoop_partial:
  assumes step: "\<And>x y i trees. \<forall>u\<in>set trees. P u \<Longrightarrow>
                 \<forall>u\<in>set (pushTree block paths (treeCandidate spacing seed x y i) trees). P u"
    and r: "xLoop block paths spacing seed x st = Some st'"
    and p: "\<forall>u\<in>set (snd st). P u"
  shows "\<forall>u\<in>set (snd st'). P u"
proof -
  have "block = block \<and> paths = paths \<and> spacing = spacing \<and> seed = seed
        \<longrightarrow> (\<forall>u\<in>set (snd st). P u) \<longrightarrow> (\<forall>u\<in>set (snd st'). P u)"
  proof (rule xLoop_induct [where P = "\<lambda>b ps sp sd x st st'.
        b = block \<and> ps = paths \<and> sp = spacing \<and> sd = seed
        \<longrightarrow> (\<forall>u\<in>set (snd st). P u) \<longrightarrow> (\<forall>u\<in>set (snd st'). P u)", OF _ r], goal_cases)
    case (1 f b ps sp sd x st st')
    show ?case
    proof (intro impI)
      assume e: "b = block \<and> ps = paths \<and> sp = spacing \<and> sd = seed"
        and q: "\<forall>u\<in>set (snd st). P u"
      show "\<forall>u\<in>set (snd st'). P u"
      proof (cases "x < block_left b + block_width b")
        case True
        with 1(2) obtain st1 where y1: "yLoop b ps sp sd x (block_top b) st = Some st1"
          and x1: "f b ps sp sd (x + sp) st1 = Some st'"
          by (auto simp: bind_eq_Some_conv)
        have "\<forall>u\<in>set (snd st1). P u"
          using yLoop_partial [of P block paths spacing seed x "block_top block" st st1] step y1 q e
          by blast
        with 1(1) [OF x1] e show ?thesis by simp
      next
        case False
        with 1(2) q show ?thesis by simp
      qed
    qed
  qed
  with p show ?thesis by simp
qed

lemma pushTree_clear:
  assumes "\<forall>u\<in>set trees. withinBlock block (pt_x u) (pt_y u) \<and> \<not> isInPath (pt_x u) (pt_y u) paths"
  shows "\<forall>u\<in>set (pushTree block paths t trees).
           withinBlock block (pt_x u) (pt_y u) \<and> \<not> isInPath (pt_x u) (pt_y u) paths"
  using assms by (simp add: pushTree_def)

lemma pushTree_rounded:
  assumes "\<forall>u\<in>set trees. round2 (pt_x u) = pt_x u \<and> round2 (pt_y u) = pt_y u"
  shows "\<forall>u\<in>set (pushTree block paths (treeCandidate spacing seed x y i) trees).
           round2 (pt_x u) = pt_x u \<and> round2 (pt_y u) = pt_y u"
  using assms by (simp add: pushTree_def treeCandidate_def Let_def round2_idem)

lemma generateTreeBlock_returns:
  assumes d: "0 < block_density block"
    and step: "\<And>sp sd x y i trees. \<forall>u\<in>set trees. P u \<Longrightarrow>
                 \<forall>u\<in>set (pushTree block paths (treeCandidate sp sd x y i) trees). P u"
  shows "\<exists>trees. generateTreeBlock block paths = Some trees \<and> (\<forall>u\<in>set trees. P u)"
proof -
  let ?sp = "100 / block_density block"
  let ?sd = "block_left block * 1000 + block_top block * 100 + block_width block + block_length block"
  have sp: "0 < ?sp" using d by simp
  have "\<forall>u\<in>set (snd (0::nat, []::point list)). P u" by simp
  from xLoop_invariant [of ?sp P block paths ?sd "(0, [])" "block_left block", OF sp step this]
  obtain st' where "xLoop block paths ?sp ?sd (block_left block) (0, []) = Some st'"
    and "\<forall>u\<in>set (snd st'). P u" by blast
  then show ?thesis using d by (simp add: generateTreeBlock_def Let_def)
qed

lemma generateTreeBlock_partial:
  assumes r: "generateTreeBlock block paths = Some trees"
    and step: "\<And>sp sd x y i trees. \<forall>u\<in>set trees. P u \<Longrightarrow>
                 \<forall>u\<in>set (pushTree block paths (treeCandidate sp sd x y i) trees). P u"
  shows "\<forall>u\<in>set trees. P u"
proof (cases "block_density block = 0")
  case True
  with r show ?thesis by (simp add: generateTreeBlock_def)
next
  case False
  let ?sp = "100 / block_density block"
  let ?sd = "block_left block * 1000 + block_top block * 100 + block_width block + block_length block"
  from r False obtain st' where x: "xLoop block paths ?sp ?sd (block_left block) (0, []) = Some st'"
    and t: "trees = snd st'"
    by (auto simp: generateTreeBlock_def Let_def)
  have "\<forall>u\<in>set (snd (0::nat, []::point list)). P u" by simp
  from xLoop_partial [of P block paths ?sp ?sd "block_left block" "(0, [])" st', OF step x this] t
  show ?thesis by simp
qed

text \<open>
  A block that keeps a tree: in \<open>smallBlock\<close> the spacing is 5, and the candidate of
  the cell at (5, 5) stays within one unit of the cell, so it is kept when there is no
  path.
\<close>

lemma seededRandom_bounds: "0 \<le> seededRandom s \<and> seededRandom s < 1"
proof -
  have "seededRandom s = frac (sin s * 10000)"
    by (simp add: seededRandom_def Math_floor_def frac_def Let_def)
  then show ?thesis by (simp add: frac_lt_1)
qed

lemma round2_between:
  assumes "of_int a \<le> v" and "v \<le> of_int b"
  shows "of_int a \<le> round2 v \<and> round2 v \<le> of_int b"
proof -
  have "of_int (a * 100) \<le> v * 100 + 1 / 2" using assms(1) by simp
  then have lo: "a * 100 \<le> \<lfloor>v * 100 + 1 / 2\<rfloor>" by (simp only: le_floor_iff)
  have "v * 100 + 1 / 2 < of_int (b * 100 + 1)" using assms(2) by simp
  then have "\<lfloor>v * 100 + 1 / 2\<rfloor> < b * 100 + 1" by (simp only: floor_less_iff)
  then have hi: "\<lfloor>v * 100 + 1 / 2\<rfloor> \<le> b * 100" by simp
  have "real_of_int (a * 100) \<le> real_of_int \<lfloor>v * 100 + 1 / 2\<rfloor>"
    using lo by (simp only: of_int_le_iff)
  moreover have "real_of_int \<lfloor>v * 100 + 1 / 2\<rfloor> \<le> real_of_int (b * 100)"
    using hi by (simp only: of_int_le_iff)
  ultimately show ?thesis by (simp add: round2_def Math_round_def)
qed

lemma pushTree_keeps: "t \<in> set trees \<Longrightarrow> t \<in> set (pushTree block paths u trees)"
  by (simp add: pushTree_def)

lemma pushTree_adds:
  "withinBlock block (pt_x t) (pt_y t) \<Longrightarrow> t \<in> set (pushTree block [] t trees)"
  by (simp add: pushTree_def)

lemma inner_candidate_within:
  "withinBlock smallBlock (pt_x (treeCandidate 5 20 5 5 3)) (pt_y (treeCandidate 5 20 5 5 3))"
proof -
  have x: "of_int 4 \<le> 5 + (seededRandom s - 0.5) * 5 * 0.4
        \<and> 5 + (seededRandom s - 0.5) * 5 * 0.4 \<le> of_int 6" for s
    using seededRandom_bounds [of s] by (simp add: field_simps)
  have r: "4 \<le> round2 (5 + (seededRandom s - 0.5) * 5 * 0.4)
        \<and> round2 (5 + (seededRandom s - 0.5) * 5 * 0.4) \<le> 6" for s
    using round2_between [of 4 _ 6] x [of s] by simp
  have "0 \<le> round2 (5 + (seededRandom s - 0.5) * 5 * 0.4)
        \<and> round2 (5 + (seededRandom s - 0.5) * 5 * 0.4) \<le> 10" for s
    using r [of s] by linarith
  then show ?thesis
    by (simp add: withinBlock_def smallBlock_def treeCandidate_def Let_def)
qed

lemma smallBlock_keeps_a_tree:
  "\<exists>trees. generateTreeBlock smallBlock [] = Some trees \<and> treeCandidate 5 20 5 5 3 \<in> set trees"
proof -
  have sel: "block_top smallBlock = 0" "block_left smallBlock = 0" "block_length smallBlock = 10"
    "block_width smallBlock = 10" "block_density smallBlock = 20"
    by (simp_all add: smallBlock_def)
  have y: "yLoop smallBlock [] 5 20 x 0 st =
     Some (fst st + 2, pushTree smallBlock [] (treeCandidate 5 20 x 5 (fst st + 1))
            (pushTree smallBlock [] (treeCandidate 5 20 x 0 (fst st)) (snd st)))" for x st
    by (simp add: yLoop.simps [of smallBlock "[]" 5 20 x 0]
        yLoop.simps [of smallBlock "[]" 5 20 x 5] yLoop.simps [of smallBlock "[]" 5 20 x 10] sel)
  have "generateTreeBlock smallBlock [] =
     Some (pushTree smallBlock [] (treeCandidate 5 20 5 5 3)
            (pushTree smallBlock [] (treeCandidate 5 20 5 0 2)
              (pushTree smallBlock [] (treeCandidate 5 20 0 5 1)
                (pushTree smallBlock [] (treeCandidate 5 20 0 0 0) []))))"
    by (simp add: generateTreeBlock_def Let_def sel y
        xLoop.simps [of smallBlock "[]" 5 20 0] xLoop.simps [of smallBlock "[]" 5 20 5]
        xLoop.simps [of smallBlock "[]" 5 20 10] numeral_3_eq_3 numeral_2_eq_2)
  with pushTree_adds [OF inner_candidate_within] show ?thesis by simp
qed

text \<open>
  Claim C2. For a block of positive density and any list of paths, \<open>generateTreeBlock\<close>
  returns, every returned point lies in the block's rectangle, boundary included, and
  no supplied path contains it; so when one of the paths contains every point of the
  block's rectangle, the result is empty.
\<close>

theorem generateTreeBlock_inside_block_off_paths:
  assumes "0 < block_density block"
  shows "\<exists>trees. generateTreeBlock block paths = Some trees
     \<and> (\<forall>t\<in>set trees.
           block_left block \<le> pt_x t \<and> pt_x t \<le> block_left block + block_width block
           \<and> block_top block \<le> pt_y t \<and> pt_y t \<le> block_top block + block_length block
           \<and> (\<forall>path\<in>set paths. \<not> isPointInPath (pt_x t) (pt_y t) path))
     \<and> ((\<exists>path\<in>set paths. \<forall>x y.
            block_left block \<le> x \<and> x \<le> block_left block + block_width block
            \<and> block_top block \<le> y \<and> y \<le> block_top block + block_length block
            \<longrightarrow> isPointInPath x y path)
          \<longrightarrow> trees = [])"
proof -
  from generateTreeBlock_returns [of block
      "\<lambda>u. withinBlock block (pt_x u) (pt_y u) \<and> \<not> isInPath (pt_x u) (pt_y u) paths" paths,
      OF assms pushTree_clear]
  obtain trees where r: "generateTreeBlock block paths = Some trees"
    and c: "\<forall>u\<in>set trees. withinBlock block (pt_x u) (pt_y u) \<and> \<not> isInPath (pt_x u) (pt_y u) paths"
    by blast
  have inside: "\<forall>t\<in>set trees.
           block_left block \<le> pt_x t \<and> pt_x t \<le> block_left block + block_width block
           \<and> block_top block \<le> pt_y t \<and> pt_y t \<le> block_top block + block_length block
           \<and> (\<forall>path\<in>set paths. \<not> isPointInPath (pt_x t) (pt_y t) path)"
    using c by (simp add: withinBlock_def isInPath_iff)
  have "trees = []" if "\<exists>path\<in>set paths. \<forall>x y.
            block_left block \<le> x \<and> x \<le> block_left block + block_width block
            \<and> block_top block \<le> y \<and> y \<le> block_top block + block_length block
            \<longrightarrow> isPointInPath x y path"
  proof (rule ccontr)
    assume "trees \<noteq> []"
    then obtain t where "t \<in> set trees" by (cases trees) auto
    with inside that show False by blast
  qed
  with r inside show ?thesis by blast
qed

theorem generateTreeBlock_inside_block_off_paths_witness:
  "0 < block_density smallBlock
   \<and> generateTreeBlock smallBlock [coveringPath] = Some []
   \<and> (\<exists>trees. generateTreeBlock smallBlock [] = Some trees
         \<and> treeCandidate 5 20 5 5 3 \<in> set trees
         \<and> block_left smallBlock \<le> pt_x (treeCandidate 5 20 5 5 3)
         \<and> pt_x (treeCandidate 5 20 5 5 3) \<le> block_left smallBlock + block_width smallBlock
         \<and> block_top smallBlock \<le> pt_y (treeCandidate 5 20 5 5 3)
         \<and> pt_y (treeCandidate 5 20 5 5 3) \<le> block_top smallBlock + block_length smallBlock)"
proof -
  have d: "0 < block_density smallBlock" by (simp add: smallBlock_def)
  have cover: "\<exists>path\<in>set [coveringPath]. \<forall>x y.
            block_left smallBlock \<le> x \<and> x \<le> block_left smallBlock + block_width smallBlock
            \<and> block_top smallBlock \<le> y \<and> y \<le> block_top smallBlock + block_length smallBlock
            \<longrightarrow> isPointInPath x y path"
    by (auto simp add: smallBlock_def coveringPath_def isPointInPath_def)
  from generateTreeBlock_inside_block_off_paths [OF d, of "[coveringPath]"] cover
  have covered: "generateTreeBlock smallBlock [coveringPath] = Some []" by blast
  from smallBlock_keeps_a_tree obtain trees
    where t: "generateTreeBlock smallBlock [] = Some trees"
      and m: "treeCandidate 5 20 5 5 3 \<in> set trees" by blast
  from generateTreeBlock_inside_block_off_paths [OF d, of "[]"] t m
  have "block_left smallBlock \<le> pt_x (treeCandidate 5 20 5 5 3)
         \<and> pt_x (treeCandidate 5 20 5 5 3) \<le> block_left smallBlock + block_width smallBlock
         \<and> block_top smallBlock \<le> pt_y (treeCandidate 5 20 5 5 3)
         \<and> pt_y (treeCandidate 5 20 5 5 3) \<le> block_top smallBlock + block_length smallBlock"
    by auto
  with d covered t m show ?thesis by blast
qed

lemma borderLoop_steps:
  "limit < v + 250 * real n \<Longrightarrow> (\<forall>k<n. v + 250 * real k \<le> limit) \<Longrightarrow>
   borderLoop tree limit v st =
     (fst st + n, snd st @ map (\<lambda>k. tree (v + 250 * real k) (fst st + k)) [0..<n])"
proof (induction n arbitrary: v st)
  case 0
  then show ?case by (simp add: borderLoop.simps [of tree limit v st])
next
  case (Suc n)
  from Suc.prems(2) have v: "v \<le> limit" by force
  have lim: "limit < v + TREE_SPACING + 250 * real n"
    using Suc.prems(1) by (simp add: TREE_SPACING_def algebra_simps)
  have below: "\<forall>k<n. v + TREE_SPACING + 250 * real k \<le> limit"
  proof (intro allI impI)
    fix k assume "k < n"
    then have "v + 250 * real (Suc k) \<le> limit" using Suc.prems(2) by blast
    then show "v + TREE_SPACING + 250 * real k \<le> limit"
      by (simp add: TREE_SPACING_def algebra_simps)
  qed
  have shift: "\<And>k. v + TREE_SPACING + 250 * real k = v + 250 * real (Suc k)"
    by (simp add: TREE_SPACING_def algebra_simps)
  show ?case
    using v Suc.IH [OF lim below, of "(fst st + 1, snd st @ [tree v (fst st)])"]
    by (simp add: map_upt_Suc shift borderLoop.simps [of tree limit v st] del: upt_Suc)
qed

lemma xRow: "borderLoop tree (WORLD_WIDTH + TREE_SPACING) (- TREE_SPACING) st =
     (fst st + 19, snd st @ map (\<lambda>k. tree (gridPosition k) (fst st + k)) [0..<19])"
proof -
  have "\<forall>k<19. - 250 + 250 * real k \<le> (4250::real)"
  proof (intro allI impI)
    fix k :: nat assume "k < 19"
    then have "real k \<le> 18" by simp
    then show "- 250 + 250 * real k \<le> (4250::real)" by simp
  qed
  then show ?thesis
    using borderLoop_steps [of 4250 "-250" 19 tree st]
    by (simp add: WORLD_WIDTH_def TREE_SPACING_def gridPosition_def)
qed

lemma yRow: "borderLoop tree (WORLD_HEIGHT + TREE_SPACING) (- TREE_SPACING) st =
     (fst st + 20, snd st @ map (\<lambda>k. tree (gridPosition k) (fst st + k)) [0..<20])"
proof -
  have "\<forall>k<20. - 250 + 250 * real k \<le> (4550::real)"
  proof (intro allI impI)
    fix k :: nat assume "k < 20"
    then have "real k \<le> 19" by simp
    then show "- 250 + 250 * real k \<le> (4550::real)" by simp
  qed
  then show ?thesis
    using borderLoop_steps [of 4550 "-250" 20 tree st]
    by (simp add: WORLD_HEIGHT_def TREE_SPACING_def gridPosition_def)
qed

lemma topTree_jittered:
  "topTree layer (gridPosition k) c = jitteredPoint (gridPosition k) (- layer) 200 100 c"
  by (simp add: topTree_def jitteredPoint_def RANDOM_OFFSET_def Let_def)

lemma bottomTree_jittered:
  "bottomTree layer (gridPosition k) c
     = jitteredPoint (gridPosition k) (WORLD_HEIGHT + layer - BOTTOM_RAISE) 200 100 c"
  by (simp add: bottomTree_def jitteredPoint_def RANDOM_OFFSET_def Let_def)

lemma leftTree_jittered:
  "leftTree layer (gridPosition k) c = jitteredPoint (- layer) (gridPosition k) 100 200 c"
  by (simp add: leftTree_def jitteredPoint_def RANDOM_OFFSET_def Let_def)

lemma rightTree_jittered:
  "rightTree layer (gridPosition k) c
     = jitteredPoint (WORLD_WIDTH + layer) (gridPosition k) 100 200 c"
  by (simp add: rightTree_def jitteredPoint_def RANDOM_OFFSET_def Let_def)

lemma borderLayer_rows:
  "borderLayer layer st = (fst st + 78, snd st @ borderRing layer (fst st))"
  by (simp add: borderLayer_def xRow yRow borderRing_def Let_def add.assoc topTree_jittered
      bottomTree_jittered leftTree_jittered rightTree_jittered del: upt_Suc)

lemma upt_7: "[0..<7] = [0, 1, 2, 3, 4, 5, 6::nat]"
  by code_simp

lemma layerLoop_layers:
  "layerLoop 0 st = (fst st + 546,
     snd st @ concat (map (\<lambda>m. borderRing (125 * real m) (fst st + 78 * m)) [0..<7]))"
proof -
  have step: "\<And>l s. l < 800 \<Longrightarrow> layerLoop l s = layerLoop (l + 125) (borderLayer l s)"
    by (subst layerLoop.simps) (simp add: BORDER_DEPTH_def TREE_SPACING_def)
  have stop: "\<And>s. layerLoop 875 s = s"
    by (subst layerLoop.simps) (simp add: BORDER_DEPTH_def)
  show ?thesis
    by (simp add: step stop borderLayer_rows upt_7 add.assoc)
qed

lemma generateBorderTrees_first_ring:
  "generateBorderTrees = borderRing 0 0
     @ concat (map (\<lambda>m. borderRing (125 * real m) (78 * m)) [1, 2, 3, 4, 5, 6])"
  by (simp add: generateBorderTrees_def layerLoop_layers upt_7)

lemma jitteredPoint_rounded:
  "round2 (pt_x (jitteredPoint a b c d k)) = pt_x (jitteredPoint a b c d k)
   \<and> round2 (pt_y (jitteredPoint a b c d k)) = pt_y (jitteredPoint a b c d k)"
  by (simp add: jitteredPoint_def round2_idem)

lemma borderRing_rounded:
  "t \<in> set (borderRing layer c) \<Longrightarrow> round2 (pt_x t) = pt_x t \<and> round2 (pt_y t) = pt_y t"
  by (auto simp add: borderRing_def jitteredPoint_rounded simp del: upt_Suc)

lemma generateBorderTrees_rounded:
  "t \<in> set generateBorderTrees \<Longrightarrow> round2 (pt_x t) = pt_x t \<and> round2 (pt_y t) = pt_y t"
  by (auto simp add: generateBorderTrees_def layerLoop_layers borderRing_rounded simp del: upt_Suc)

section \<open>Properties of the border generator\<close>

text \<open>
  Claim C3, as amended. \<open>generateBorderTrees\<close> produces seven layers (0, 125, ..., 750),
  78 points each. In every layer each of the four rows is a regular grid with step
  \<open>TREE_SPACING\<close> from \<open>- TREE_SPACING\<close> along its world edge. The nominal y of the top
  row is \<open>- layer\<close>, the nominal x of the left row is \<open>- layer\<close>, the nominal x of the right
  row is \<open>WORLD_WIDTH + layer\<close>, and the nominal y of the bottom row is
  \<open>WORLD_HEIGHT + layer - BOTTOM_RAISE\<close>: the bottom row is raised by 200 and so is not
  offset outward by the layer alone.
\<close>

theorem generateBorderTrees_rings:
  "generateBorderTrees = concat (map (\<lambda>m. borderRing (125 * real m) (78 * m)) [0..<7])
   \<and> length generateBorderTrees = 546"
  by (simp add: generateBorderTrees_def layerLoop_layers upt_7 borderRing_def)

text \<open>
  Claim C3, as stated, fails: the first point of the bottom row of layer 0 is the point
  with index 19 of the output, made with counter 19. Its y coordinate is the rounded
  jitter of \<open>WORLD_HEIGHT + 0 - BOTTOM_RAISE\<close>, and differs from what the nominal value
  \<open>WORLD_HEIGHT + 0\<close> would give with the same jitter.
\<close>

theorem bottom_border_nominal_counterexample:
  "pt_y (generateBorderTrees ! 19)
     = round2 (WORLD_HEIGHT + 0 - BOTTOM_RAISE
               + rand (RANDOM_OFFSET / 2) (borderSeed + real (19::nat) * 19 + 5000))
   \<and> pt_y (generateBorderTrees ! 19)
     \<noteq> round2 (WORLD_HEIGHT + 0
               + rand (RANDOM_OFFSET / 2) (borderSeed + real (19::nat) * 19 + 5000))"
proof -
  let ?j = "rand (RANDOM_OFFSET / 2) (borderSeed + real (19::nat) * 19 + 5000)"
  have "generateBorderTrees ! 19 = borderRing 0 0 ! 19"
    by (simp add: generateBorderTrees_first_ring nth_append borderRing_def)
  also have "\<dots> = jitteredPoint (gridPosition 0) (WORLD_HEIGHT + 0 - BOTTOM_RAISE) 200 100 19"
    by (simp add: borderRing_def nth_append del: upt_Suc)
  finally have y: "pt_y (generateBorderTrees ! 19) = round2 (WORLD_HEIGHT + 0 - BOTTOM_RAISE + ?j)"
    by (simp add: jitteredPoint_def RANDOM_OFFSET_def)
  have "round2 (WORLD_HEIGHT + 0 + ?j) = round2 (WORLD_HEIGHT + 0 - BOTTOM_RAISE + ?j + of_int 200)"
    by (simp add: BOTTOM_RAISE_def)
  also have "\<dots> = round2 (WORLD_HEIGHT + 0 - BOTTOM_RAISE + ?j) + 200"
    by (simp only: round2_add_int)
  finally have "round2 (WORLD_HEIGHT + 0 + ?j) \<noteq> round2 (WORLD_HEIGHT + 0 - BOTTOM_RAISE + ?j)"
    by simp
  with y show ?thesis by simp
qed

section \<open>Rounding of the generated coordinates\<close>

text \<open>
  Claim C9. Every coordinate of every point that \<open>generateTreeBlock\<close> returns, and of
  every point of \<open>generateBorderTrees\<close>, is a fixed point of \<open>round2\<close>; the block generator
  does return for a positive density; and \<open>round2\<close> is idempotent.
\<close>

theorem coordinates_rounded:
  "(\<forall>trees. generateTreeBlock block paths = Some trees \<longrightarrow>
      (\<forall>t\<in>set trees. round2 (pt_x t) = pt_x t \<and> round2 (pt_y t) = pt_y t))
   \<and> (0 < block_density block \<longrightarrow> (\<exists>trees. generateTreeBlock block paths = Some trees))
   \<and> (\<forall>t\<in>set generateBorderTrees. round2 (pt_x t) = pt_x t \<and> round2 (pt_y t) = pt_y t)
   \<and> round2 (round2 v) = round2 v"
proof -
  have a: "\<forall>trees. generateTreeBlock block paths = Some trees \<longrightarrow>
      (\<forall>t\<in>set trees. round2 (pt_x t) = pt_x t \<and> round2 (pt_y t) = pt_y t)"
    using generateTreeBlock_partial [of block paths _
        "\<lambda>t. round2 (pt_x t) = pt_x t \<and> round2 (pt_y t) = pt_y t", OF _ pushTree_rounded]
    by blast
  have b: "0 < block_density block \<longrightarrow> (\<exists>trees. generateTreeBlock block paths = Some trees)"
    using generateTreeBlock_returns [of block "\<lambda>t. True" paths] by blast
  have c: "\<forall>t\<in>set generateBorderTrees. round2 (pt_x t) = pt_x t \<and> round2 (pt_y t) = pt_y t"
    using generateBorderTrees_rounded by blast
  from a b c round2_idem show ?thesis by blast
qed

theorem coordinates_rounded_witness:
  "0 < block_density smallBlock
   \<and> (\<exists>trees. generateTreeBlock smallBlock [] = Some trees
        \<and> treeCandidate 5 20 5 5 3 \<in> set trees
        \<and> round2 (pt_x (treeCandidate 5 20 5 5 3)) = pt_x (treeCandidate 5 20 5 5 3)
        \<and> round2 (pt_y (treeCandidate 5 20 5 5 3)) = pt_y (treeCandidate 5 20 5 5 3))
   \<and> jitteredPoint (gridPosition 0) (- 0) 200 100 0 \<in> set generateBorderTrees
   \<and> round2 (pt_x (jitteredPoint (gridPosition 0) (- 0) 200 100 0))
       = pt_x (jitteredPoint (gridPosition 0) (- 0) 200 100 0)"
proof -
  have d: "0 < block_density smallBlock" by (simp add: smallBlock_def)
  have m: "jitteredPoint (gridPosition 0) (- 0) 200 100 0 \<in> set generateBorderTrees"
    by (simp add: generateBorderTrees_first_ring borderRing_def upt_rec [of 0 19])
  from smallBlock_keeps_a_tree obtain trees
    where t: "generateTreeBlock smallBlock [] = Some trees"
      and k: "treeCandidate 5 20 5 5 3 \<in> set trees" by blast
  from coordinates_rounded [of smallBlock "[]" 0] d m t k show ?thesis by blast
qed

section \<open>Properties of the movement tick\<close>

text \<open>
  Claim C8. One tick of \<open>updatePosition\<close> keeps a position that is within
  \<open>550 \<le> x \<le> WORLD_WIDTH - 200\<close> and \<open>650 \<le> y \<le> WORLD_HEIGHT - 200\<close> within these
  bounds, whatever keys are pressed; and a position already at a bound stays there when
  the key towards that bound is pressed again.
\<close>

theorem updatePosition_keeps_bounds:
  assumes "550 \<le> pt_x p" and "pt_x p \<le> WORLD_WIDTH - 200"
    and "650 \<le> pt_y p" and "pt_y p \<le> WORLD_HEIGHT - 200"
  shows "550 \<le> pt_x (updatePosition keys p) \<and> pt_x (updatePosition keys p) \<le> WORLD_WIDTH - 200
     \<and> 650 \<le> pt_y (updatePosition keys p) \<and> pt_y (updatePosition keys p) \<le> WORLD_HEIGHT - 200
     \<and> (pt_y p = 650 \<and> ''ArrowUp'' \<in> keys \<and> ''ArrowDown'' \<notin> keys
          \<longrightarrow> pt_y (updatePosition keys p) = pt_y p)
     \<and> (pt_y p = WORLD_HEIGHT - 200 \<and> ''ArrowDown'' \<in> keys
          \<longrightarrow> pt_y (updatePosition keys p) = pt_y p)
     \<and> (pt_x p = 550 \<and> ''ArrowLeft'' \<in> keys \<and> ''ArrowRight'' \<notin> keys
          \<longrightarrow> pt_x (updatePosition keys p) = pt_x p)
     \<and> (pt_x p = WORLD_WIDTH - 200 \<and> ''ArrowRight'' \<in> keys
          \<longrightarrow> pt_x (updatePosition keys p) = pt_x p)"
  using assms
  by (simp add: updatePosition_def Let_def SPEED_def WORLD_WIDTH_def WORLD_HEIGHT_def)

theorem updatePosition_keeps_bounds_witness:
  "550 \<le> pt_x \<lparr>pt_x = 550, pt_y = 650\<rparr>
   \<and> pt_x \<lparr>pt_x = 550, pt_y = 650\<rparr> \<le> WORLD_WIDTH - 200
   \<and> 650 \<le> pt_y \<lparr>pt_x = 550, pt_y = 650\<rparr>
   \<and> pt_y \<lparr>pt_x = 550, pt_y = 650\<rparr> \<le> WORLD_HEIGHT - 200
   \<and> updatePosition {''ArrowUp'', ''ArrowLeft''} \<lparr>pt_x = 550, pt_y = 650\<rparr>
       = \<lparr>pt_x = 550, pt_y = 650\<rparr>
   \<and> 550 \<le> pt_x (updatePosition {''ArrowDown'', ''ArrowRight''} \<lparr>pt_x = 3800, pt_y = 4100\<rparr>)
   \<and> pt_y (updatePosition {''ArrowDown'', ''ArrowRight''} \<lparr>pt_x = 3800, pt_y = 4100\<rparr>) = 4100
   \<and> pt_x (updatePosition {''ArrowDown'', ''ArrowRight''} \<lparr>pt_x = 3800, pt_y = 4100\<rparr>) = 3800"
proof -
  have a: "550 \<le> pt_x \<lparr>pt_x = 550, pt_y = 650\<rparr>" "pt_x \<lparr>pt_x = 550, pt_y = 650\<rparr> \<le> WORLD_WIDTH - 200"
    "650 \<le> pt_y \<lparr>pt_x = 550, pt_y = 650\<rparr>" "pt_y \<lparr>pt_x = 550, pt_y = 650\<rparr> \<le> WORLD_HEIGHT - 200"
    by (simp_all add: WORLD_WIDTH_def WORLD_HEIGHT_def)
  have b: "550 \<le> pt_x \<lparr>pt_x = 3800, pt_y = 4100\<rparr>" "pt_x \<lparr>pt_x = 3800, pt_y = 4100\<rparr> \<le> WORLD_WIDTH - 200"
    "650 \<le> pt_y \<lparr>pt_x = 3800, pt_y = 4100\<rparr>" "pt_y \<lparr>pt_x = 3800, pt_y = 4100\<rparr> \<le> WORLD_HEIGHT - 200"
    by (simp_all add: WORLD_WIDTH_def WORLD_HEIGHT_def)
  have "pt_x (updatePosition {''ArrowUp'', ''ArrowLeft''} \<lparr>pt_x = 550, pt_y = 650\<rparr>) = 550
      \<and> pt_y (updatePosition {''ArrowUp'', ''ArrowLeft''} \<lparr>pt_x = 550, pt_y = 650\<rparr>) = 650"
    using updatePosition_keeps_bounds [OF a, of "{''ArrowUp'', ''ArrowLeft''}"] by simp
  then have c: "updatePosition {''ArrowUp'', ''ArrowLeft''} \<lparr>pt_x = 550, pt_y = 650\<rparr>
       = \<lparr>pt_x = 550, pt_y = 650\<rparr>"
    by (cases "updatePosition {''ArrowUp'', ''ArrowLeft''} \<lparr>pt_x = 550, pt_y = 650\<rparr>") simp
  show ?thesis
    using a c updatePosition_keeps_bounds [OF b, of "{''ArrowDown'', ''ArrowRight''}"]
    by (simp add: WORLD_WIDTH_def WORLD_HEIGHT_def)
qed

section \<open>Properties of the completion check\<close>



lemma agentTaskCompleted_iff: "agentTaskCompleted rs \<longleftrightarrow> hasResponse rs 6 \<or> hasResponse rs 7"
  by (simp add: agentTaskCompleted_def agentTaskIndices_def)












lemma trim_letter: "\<not> isWhiteSpace c \<Longrightarrow> trim [c] = [c]"
  by (simp add: trim_def)

lemma trim_examples [simp]: "trim ''x'' = ''x''" "trim ''y'' = ''y''" "trim ''a'' = ''a''"
  by (simp_all add: trim_letter isWhiteSpace_def)

lemma find_filter_other:
  "i \<noteq> k \<Longrightarrow> find (\<lambda>r. index r = i) (filter (\<lambda>r. index r \<noteq> k) rs) = find (\<lambda>r. index r = i) rs"
  by (induction rs) auto

lemma findResponse_filter:
  "i \<noteq> beansRenameIndex \<Longrightarrow>
   findResponse (filter (\<lambda>r. index r \<noteq> beansRenameIndex) rs) i = findResponse rs i"
  by (simp add: findResponse_def find_filter_other)

lemma hasResponse_filter:
  "i \<noteq> beansRenameIndex \<Longrightarrow>
   hasResponse (filter (\<lambda>r. index r \<noteq> beansRenameIndex) rs) i = hasResponse rs i"
  by (simp add: hasResponse_def findResponse_filter)

lemma agentTaskCompleted_filter:
  "agentTaskCompleted (filter (\<lambda>r. index r \<noteq> beansRenameIndex) rs) = agentTaskCompleted rs"
proof -
  have "6 \<noteq> beansRenameIndex" and "7 \<noteq> beansRenameIndex"
    by (simp_all add: beansRenameIndex_def)
  then show ?thesis
    by (simp add: agentTaskCompleted_iff hasResponse_filter)
qed

lemma checkSign_filter:
  "checkSign (filter (\<lambda>r. index r \<noteq> beansRenameIndex) rs) tbi st = checkSign rs tbi st"
  by (cases "snd tbi = beansRenameIndex")
     (simp_all add: checkSign_def Let_def findResponse_filter agentTaskCompleted_filter)

lemma collectResponse_filter:
  "collectResponse (filter (\<lambda>r. index r \<noteq> beansRenameIndex) rs) tbi acc
     = collectResponse rs tbi acc"
  by (cases "snd tbi = beansRenameIndex")
     (simp_all add: collectResponse_def Let_def findResponse_filter)

lemma checkSigns_filter:
  "checkSigns tbs (filter (\<lambda>r. index r \<noteq> beansRenameIndex) rs) = checkSigns tbs rs"
proof -
  have "checkSign (filter (\<lambda>r. index r \<noteq> beansRenameIndex) rs) = checkSign rs"
    by (intro ext) (rule checkSign_filter)
  then show ?thesis by (simp add: checkSigns_def)
qed

lemma completionClick_filter:
  "completionClick tbs (filter (\<lambda>r. index r \<noteq> beansRenameIndex) rs) e = completionClick tbs rs e"
proof -
  have "collectResponse (filter (\<lambda>r. index r \<noteq> beansRenameIndex) rs) = collectResponse rs"
    by (intro ext) (rule collectResponse_filter)
  then show ?thesis by (simp only: completionClick_def checkSigns_filter)
qed

text \<open>
  Claim C6. The guide-naming sign never counts towards completion: two response lists
  that differ only in records of the sign index 1 give the same missing signs, the same
  grading results and the same feedback of the completion button.
\<close>

theorem beans_rename_noninterference:
  assumes "filter (\<lambda>r. index r \<noteq> beansRenameIndex) rs1
             = filter (\<lambda>r. index r \<noteq> beansRenameIndex) rs2"
  shows "completionClick tbs rs1 e = completionClick tbs rs2 e
     \<and> checkSigns tbs rs1 = checkSigns tbs rs2"
proof -
  have "completionClick tbs rs1 e
          = completionClick tbs (filter (\<lambda>r. index r \<noteq> beansRenameIndex) rs1) e"
    by (simp only: completionClick_filter)
  also have "\<dots> = completionClick tbs rs2 e"
    by (simp only: assms completionClick_filter)
  finally have a: "completionClick tbs rs1 e = completionClick tbs rs2 e" .
  have "checkSigns tbs rs1 = checkSigns tbs (filter (\<lambda>r. index r \<noteq> beansRenameIndex) rs1)"
    by (simp only: checkSigns_filter)
  also have "\<dots> = checkSigns tbs rs2"
    by (simp only: assms checkSigns_filter)
  finally show ?thesis using a by simp
qed

theorem beans_rename_noninterference_witness:
  "filter (\<lambda>r. index r \<noteq> beansRenameIndex) [answer 1 ''Rex'', answer 0 ''a'']
     = filter (\<lambda>r. index r \<noteq> beansRenameIndex) [answer 0 ''a'']
   \<and> completionClick [gradedSign ''A'' id, gradedSign ''B'' id]
        [answer 1 ''Rex'', answer 0 ''a''] 0
     = completionClick [gradedSign ''A'' id, gradedSign ''B'' id] [answer 0 ''a''] 0"
proof -
  have f: "filter (\<lambda>r. index r \<noteq> beansRenameIndex) [answer 1 ''Rex'', answer 0 ''a'']
     = filter (\<lambda>r. index r \<noteq> beansRenameIndex) [answer 0 ''a'']"
    by (simp add: answer_def beansRenameIndex_def)
  from beans_rename_noninterference [OF f] f show ?thesis by blast
qed







section \<open>Properties of the response store\<close>

lemma dropWhile_hd_id: "xs \<noteq> [] \<Longrightarrow> \<not> P (hd xs) \<Longrightarrow> dropWhile P xs = xs"
  by (cases xs) auto

lemma strip_both_idem:
  "rev (dropWhile P (rev (dropWhile P (rev (dropWhile P (rev (dropWhile P s)))))))
     = rev (dropWhile P (rev (dropWhile P s)))"
proof -
  let ?a = "dropWhile P s"
  let ?b = "dropWhile P (rev ?a)"
  show ?thesis
  proof (cases "?b = []")
    case True
    show ?thesis unfolding True by simp
  next
    case False
    have a: "?a \<noteq> []"
    proof
      assume e: "?a = []"
      have "?b = []" unfolding e by simp
      with False show False by blast
    qed
    have hb: "\<not> P (hd ?b)" using False by (rule hd_dropWhile)
    have "\<not> P (hd ?a)" using a by (rule hd_dropWhile)
    moreover have "last ?b = last (rev ?a)"
      using False by (metis last_appendR takeWhile_dropWhile_id)
    ultimately have "\<not> P (hd (rev ?b))"
      using False a by (simp add: hd_rev last_rev)
    then have "dropWhile P (rev ?b) = rev ?b"
      using False by (simp add: dropWhile_hd_id)
    moreover have "dropWhile P ?b = ?b"
      using False hb by (rule dropWhile_hd_id)
    ultimately show ?thesis by simp
  qed
qed

lemma trim_idem: "trim (trim s) = trim s"
  by (simp only: trim_def strip_both_idem)

lemma submitClick_appends:
  "signResponses (submitClick now s) = signResponses s
   \<or> (\<exists>c. signResponses (submitClick now s)
          = signResponses s @ [\<lparr>index = c, response = trim (currentResponse s), timestamp = now\<rparr>])"
  by (cases "clickedTextBox s") (auto simp add: submitClick_def Let_def)

lemma handleEvent_appends:
  "signResponses (handleEvent ev s) = signResponses s
   \<or> (\<exists>c now. signResponses (handleEvent ev s)
          = signResponses s @ [\<lparr>index = c, response = trim (currentResponse s), timestamp = now\<rparr>])"
proof (cases ev)
  case (SubmitClicked now)
  then show ?thesis using submitClick_appends [of now s] by auto
qed (auto split: option.splits)

lemma handleEvent_allTrimmed: "allTrimmed s \<Longrightarrow> allTrimmed (handleEvent ev s)"
  using handleEvent_appends [of ev s] by (auto simp add: allTrimmed_def trim_idem)

lemma fold_handleEvent_allTrimmed: "allTrimmed s \<Longrightarrow> allTrimmed (fold handleEvent events s)"
  by (induction events arbitrary: s) (simp_all add: handleEvent_allTrimmed)

text \<open>
  Claim C10. After any sequence of events, every record in the response store (the
  snapshot of \<open>getSignResponses\<close>) has a response equal to its own trimmed form, so that
  its trimmed response is non-empty exactly when the response is non-empty; an event
  leaves the store unchanged or appends one record holding the trimmed input.
\<close>

theorem stored_responses_trimmed:
  "(\<forall>r\<in>set (getSignResponses (fold handleEvent events (initialState tbs))).
      trim (response r) = response r
      \<and> (0 < length (trim (response r))) = (response r \<noteq> []))
   \<and> (signResponses (handleEvent ev s) = signResponses s
      \<or> (\<exists>c now. signResponses (handleEvent ev s)
            = signResponses s
              @ [\<lparr>index = c, response = trim (currentResponse s), timestamp = now\<rparr>]))"
proof -
  have "allTrimmed (initialState tbs)"
    by (simp add: allTrimmed_def initialState_def)
  then have "allTrimmed (fold handleEvent events (initialState tbs))"
    by (rule fold_handleEvent_allTrimmed)
  then have "\<forall>r\<in>set (getSignResponses (fold handleEvent events (initialState tbs))).
      trim (response r) = response r
      \<and> (0 < length (trim (response r))) = (response r \<noteq> [])"
    by (simp add: allTrimmed_def getSignResponses_def)
  with handleEvent_appends show ?thesis by blast
qed

theorem stored_responses_trimmed_witness:
  "getSignResponses (fold handleEvent [SignClicked 0, ResponseTyped ''  hi '', SubmitClicked 5]
       (initialState [gradedSign ''A'' id]))
     = [\<lparr>index = 0, response = ''hi'', timestamp = 5\<rparr>]
   \<and> trim (response \<lparr>index = 0, response = ''hi'', timestamp = 5\<rparr>)
     = response \<lparr>index = 0, response = ''hi'', timestamp = 5\<rparr>"
proof -
  have g: "getSignResponses (fold handleEvent [SignClicked 0, ResponseTyped ''  hi '', SubmitClicked 5]
       (initialState [gradedSign ''A'' id]))
     = [\<lparr>index = 0, response = ''hi'', timestamp = 5\<rparr>]"
    by (simp add: getSignResponses_def initialState_def gradedSign_def inputShown_def
        submitClick_def trim_def isWhiteSpace_def Let_def)
  from stored_responses_trimmed [of "[SignClicked 0, ResponseTyped ''  hi '', SubmitClicked 5]"
      "[gradedSign ''A'' id]"] g
  show ?thesis by simp
qed

end
